theory Spec2Isabelle
  imports Main "HOL-Library.Word"
begin

section \<open>Market data types (binance\_types.go)\<close>

text \<open>Go's \<open>int64\<close> is a 64-bit word read as two's complement: \<open>+\<close> wraps around,
  comparisons go through \<open>sint\<close>.\<close>

type_synonym int64 = "64 word"

record PriceLevel =
  Price :: string
  Quantity :: string

record OrderBookDiff =
  EventType :: string
  EventTime :: int64
  Symbol :: string
  FirstUpdateID :: int64
  FinalUpdateID :: int64
  Bids :: "PriceLevel list"
  Asks :: "PriceLevel list"

record OrderBookSnapshot =
  LastUpdateID :: int64
  SnapBids :: "PriceLevel list"
  SnapAsks :: "PriceLevel list"

section \<open>The reconciler decision function (subscription.go)\<close>

text \<open>The function as the source writes it: an early return for a stale diff, two nested
  gap checks, and the fall-through that accepts. The result is
  \<open>(recordMsg, newProcessedId, gapDetected)\<close>.\<close>

definition ProcessOrderBookDiffMessage ::
  "OrderBookDiff \<Rightarrow> int64 \<Rightarrow> int64 \<Rightarrow> bool \<times> int64 \<times> bool" where
  "ProcessOrderBookDiffMessage diff lastSnapshotId lastProcessedId =
     (if sint (FinalUpdateID diff) \<le> sint lastSnapshotId then (False, lastProcessedId, False)
      else if (if lastProcessedId = lastSnapshotId
               then sint (FirstUpdateID diff) > sint (lastSnapshotId + 1)
               else FirstUpdateID diff \<noteq> lastProcessedId + 1)
           then (False, lastProcessedId, True)
      else (True, FinalUpdateID diff, False))"

text \<open>The decision function as the specification words it: three cases, each with its
  own results, over the integers (\<open>lastProcessedId + 1\<close> is the integer successor). The
  diff's ids are read as the signed values the program holds.\<close>

definition decide :: "OrderBookDiff \<Rightarrow> int \<Rightarrow> int \<Rightarrow> bool \<times> int \<times> bool" where
  "decide diff lastSnapshotId lastProcessedId =
     (if sint (FinalUpdateID diff) \<le> lastSnapshotId
        then (False, lastProcessedId, False)
      else if lastProcessedId = lastSnapshotId
        then (if sint (FirstUpdateID diff) > lastSnapshotId + 1
              then (False, lastProcessedId, True)
              else (True, sint (FinalUpdateID diff), False))
      else (if sint (FirstUpdateID diff) \<noteq> lastProcessedId + 1
            then (False, lastProcessedId, True)
            else (True, sint (FinalUpdateID diff), False)))"

text \<open>The result of the source function with its id read as an integer.\<close>

fun as_ints :: "bool \<times> int64 \<times> bool \<Rightarrow> bool \<times> int \<times> bool" where
  "as_ints (recordMsg, newProcessedId, gapDetected) = (recordMsg, sint newProcessedId, gapDetected)"

text \<open>The one corner where Go's \<open>lastProcessedId + 1\<close> wraps around and is then matched:
  the last processed id is the largest \<open>int64\<close>, it is not the anchor, the diff is not
  stale and its first id is the smallest \<open>int64\<close>.\<close>

definition wrap_corner :: "OrderBookDiff \<Rightarrow> int64 \<Rightarrow> int64 \<Rightarrow> bool" where
  "wrap_corner diff lastSnapshotId lastProcessedId =
     (sint lastProcessedId = 2 ^ 63 - 1 \<and> sint (FirstUpdateID diff) = - (2 ^ 63) \<and>
      sint lastSnapshotId < sint (FinalUpdateID diff) \<and> lastProcessedId \<noteq> lastSnapshotId)"


section \<open>The reconciler loop (SubscribeOrderBookDiff)\<close>

text \<open>What the loop receives from its two channels, in the order \<open>select\<close> delivers it.\<close>

datatype event =
  SnapshotMsg OrderBookSnapshot
| SnapshotClosed
| DiffMsg OrderBookDiff
| DiffClosed

text \<open>The calls on the logger, with the arguments of the format string.\<close>

datatype log_call =
  Errorf_snapshot_closed
| Errorf_diff_closed
| Infof_new_snapshot int64
| Infof_no_snapshot int64
| Errorf_gap int64 int64
| Errorf_write
| Infof_discarded int64 int64

text \<open>The two local variables of the loop and the effects on its collaborators: the
  diffs passed to \<open>diffRecorder.Write\<close> in order, the number of calls of
  \<open>snapshotRequest\<close>, and the calls on the logger.\<close>

record sub_state =
  lastSnapshotId :: int64
  lastProcessedId :: int64
  written :: "OrderBookDiff list"
  requests :: nat
  logged :: "log_call list"

datatype 'a flow = Continue 'a | Return 'a

fun state_of :: "'a flow \<Rightarrow> 'a" where
  "state_of (Continue x) = x"
| "state_of (Return x) = x"

text \<open>One turn of the \<open>for/select\<close>. \<open>write_fails\<close> tells whether
  \<open>diffRecorder.Write\<close> returns an error for a diff; the loop logs the error and goes on.\<close>

fun loop_body :: "(OrderBookDiff \<Rightarrow> bool) \<Rightarrow> event \<Rightarrow> sub_state \<Rightarrow> sub_state flow" where
  "loop_body write_fails SnapshotClosed st =
     Return (st\<lparr>logged := logged st @ [Errorf_snapshot_closed]\<rparr>)"
| "loop_body write_fails (SnapshotMsg snapshot) st =
     Continue (st\<lparr>lastSnapshotId := LastUpdateID snapshot,
                   lastProcessedId := LastUpdateID snapshot,
                   logged := logged st @ [Infof_new_snapshot (LastUpdateID snapshot)]\<rparr>)"
| "loop_body write_fails DiffClosed st =
     Return (st\<lparr>logged := logged st @ [Errorf_diff_closed]\<rparr>)"
| "loop_body write_fails (DiffMsg diff) st =
     (if lastSnapshotId st = 0
      then Continue (st\<lparr>logged := logged st @ [Infof_no_snapshot (FinalUpdateID diff)]\<rparr>)
      else
        (case ProcessOrderBookDiffMessage diff (lastSnapshotId st) (lastProcessedId st) of
           (recordMsg, newProcessedId, gapDetected) \<Rightarrow>
             if gapDetected
             then Continue (st\<lparr>lastSnapshotId := 0, lastProcessedId := 0,
                      requests := Suc (requests st),
                      logged := logged st @
                        [Errorf_gap (lastProcessedId st + 1) (FirstUpdateID diff)]\<rparr>)
             else if recordMsg
             then Continue (st\<lparr>lastProcessedId := newProcessedId,
                      written := written st @ [diff],
                      logged := logged st @ (if write_fails diff then [Errorf_write] else [])\<rparr>)
             else Continue (st\<lparr>logged := logged st @
                      [Infof_discarded (FinalUpdateID diff) (lastSnapshotId st)]\<rparr>)))"

text \<open>The loop over the messages received. It returns when a channel is closed; when the
  messages run out before that, it waits in \<open>select\<close> in the state reached.\<close>

fun loop_from :: "(OrderBookDiff \<Rightarrow> bool) \<Rightarrow> event list \<Rightarrow> sub_state \<Rightarrow> sub_state flow" where
  "loop_from write_fails [] st = Continue st"
| "loop_from write_fails (ev # evs) st =
     (case loop_body write_fails ev st of
        Return st' \<Rightarrow> Return st'
      | Continue st' \<Rightarrow> loop_from write_fails evs st')"

definition SubscribeOrderBookDiff :: "(OrderBookDiff \<Rightarrow> bool) \<Rightarrow> event list \<Rightarrow> sub_state flow" where
  "SubscribeOrderBookDiff write_fails evs =
     loop_from write_fails evs
       \<lparr>lastSnapshotId = 0, lastProcessedId = 0, written = [], requests = 0, logged = []\<rparr>"


text \<open>A diff with the given first and final update ids, for the examples.\<close>

definition diff_of :: "int64 \<Rightarrow> int64 \<Rightarrow> OrderBookDiff" where
  "diff_of U u = \<lparr>EventType = ''depthUpdate'', EventTime = 0, Symbol = ''BTCUSDT'',
     FirstUpdateID = U, FinalUpdateID = u, Bids = [], Asks = []\<rparr>"




text \<open>No diff of the sequence carries the largest \<open>int64\<close> as its final id.\<close>

definition below_max :: "OrderBookDiff list \<Rightarrow> bool" where
  "below_max ds = list_all (\<lambda>d. sint (FinalUpdateID d) < 2 ^ 63 - 1) ds"

section \<open>Properties of the decision function\<close>

lemma sint_succ:
  fixes x :: int64
  assumes "sint x < 2 ^ 63 - 1"
  shows "sint (x + 1) = sint x + 1"
proof -
  have "- (2 ^ 63) \<le> sint x" using sint_ge [of x] by simp
  with assms have "- (2 ^ 63) \<le> sint x + 1 \<and> sint x + 1 < 2 ^ 63" by simp
  then have "signed_take_bit 63 (sint x + 1) = sint x + 1"
    by (simp add: signed_take_bit_int_eq_self)
  then show ?thesis
    by (simp add: sint_word_add)
qed

text \<open>Above a final id that exceeds the anchor, \<open>s + 1\<close> does not wrap around.\<close>

lemma sint_succ_no_wrap:
  fixes s u :: int64
  assumes "sint s < sint u"
  shows "sint (s + 1) = sint s + 1"
proof -
  have "sint u < 2 ^ 63" using sint_lt [of u] by simp
  with assms have "sint s < 2 ^ 63 - 1" by simp
  then show ?thesis by (rule sint_succ)
qed

lemma sint_max_succ:
  fixes x :: int64
  assumes "sint x = 2 ^ 63 - 1"
  shows "sint (x + 1) = - (2 ^ 63)"
proof -
  have "x = word_of_int (sint x)" by simp
  then have "x = 9223372036854775807" using assms by simp
  then show ?thesis by simp
qed

lemma succ_eq_iff:
  fixes U p :: int64
  assumes "\<not> (sint p = 2 ^ 63 - 1 \<and> sint U = - (2 ^ 63))"
  shows "U = p + 1 \<longleftrightarrow> sint U = sint p + 1"
proof (cases "sint p < 2 ^ 63 - 1")
  case True
  then have "sint (p + 1) = sint p + 1" by (rule sint_succ)
  then show ?thesis
    by (simp add: word_eq_iff_signed [where ?'a = int, of U "p + 1"])
next
  case False
  have "sint p < 2 ^ 63" using sint_lt [of p] by simp
  with False have mx: "sint p = 2 ^ 63 - 1" by simp
  then have w: "sint (p + 1) = - (2 ^ 63)" by (rule sint_max_succ)
  have "sint U < 2 ^ 63" using sint_lt [of U] by simp
  then have "sint U \<noteq> sint p + 1" using mx by simp
  moreover have "U \<noteq> p + 1" using w assms mx by auto
  ultimately show ?thesis by simp
qed

text \<open>C1 (amended). For every diff and every state outside the corner where Go's
  \<open>lastProcessedId + 1\<close> wraps around (last processed id \<open>2^63 - 1\<close>, different from the
  anchor, diff not stale, first id \<open>-2^63\<close>), the decision function of the source returns
  exactly what the three-case \<open>decide\<close> of the specification prescribes.\<close>

theorem ProcessOrderBookDiffMessage_refines_decide:
  assumes "\<not> wrap_corner diff s p"
  shows "as_ints (ProcessOrderBookDiffMessage diff s p) = decide diff (sint s) (sint p)"
proof (cases "sint (FinalUpdateID diff) \<le> sint s")
  case True
  then show ?thesis
    by (simp add: ProcessOrderBookDiffMessage_def decide_def)
next
  case False
  then have above: "sint s < sint (FinalUpdateID diff)" by simp
  show ?thesis
  proof (cases "p = s")
    case True
    with above sint_succ_no_wrap [OF above] show ?thesis
      by (simp add: ProcessOrderBookDiffMessage_def decide_def)
  next
    case ne: False
    then have ne': "sint p \<noteq> sint s"
      by (simp add: word_eq_iff_signed [where ?'a = int, of p s])
    from assms above ne
    have "\<not> (sint p = 2 ^ 63 - 1 \<and> sint (FirstUpdateID diff) = - (2 ^ 63))"
      by (simp add: wrap_corner_def)
    from succ_eq_iff [OF this] above ne ne' show ?thesis
      by (simp add: ProcessOrderBookDiffMessage_def decide_def)
  qed
qed

theorem ProcessOrderBookDiffMessage_refines_decide_witness:
  "\<not> wrap_corner (diff_of 102 103) 100 101 \<and>
   as_ints (ProcessOrderBookDiffMessage (diff_of 102 103) 100 101) = (True, 103, False) \<and>
   decide (diff_of 102 103) (sint (100 :: int64)) (sint (101 :: int64)) = (True, 103, False)"
proof -
  have h: "\<not> wrap_corner (diff_of 102 103) 100 101"
    by (simp add: wrap_corner_def diff_of_def)
  from ProcessOrderBookDiffMessage_refines_decide [OF h] h show ?thesis
    by (simp add: decide_def diff_of_def)
qed

text \<open>In the corner the source accepts the diff where the specification's \<open>decide\<close>
  declares a gap: anchor \<open>100\<close>, last processed id \<open>2^63 - 1\<close>, diff with first id
  \<open>-2^63\<close> and final id \<open>2^63 - 1\<close>.\<close>

theorem ProcessOrderBookDiffMessage_wrap_counterexample:
  "as_ints (ProcessOrderBookDiffMessage
      (diff_of (- 9223372036854775808) 9223372036854775807) 100 9223372036854775807)
     = (True, 9223372036854775807, False) \<and>
   decide (diff_of (- 9223372036854775808) 9223372036854775807)
      (sint (100 :: int64)) (sint (9223372036854775807 :: int64))
     = (False, 9223372036854775807, True)"
  by (simp add: ProcessOrderBookDiffMessage_def decide_def diff_of_def)

section \<open>Contiguity of the accepted diffs\<close>








lemma list_all_take: "list_all P ds \<Longrightarrow> list_all P (take n ds)"
  by (auto simp: list_all_iff dest: in_set_takeD)


section \<open>The loop on a run of diffs\<close>



lemma below_max_take: "below_max ds \<Longrightarrow> below_max (take n ds)"
  by (simp add: below_max_def list_all_take)




section \<open>Gaps, stale diffs and diffs without an anchor in the loop\<close>




text \<open>C4. In every anchored state (\<open>lastSnapshotId = s \<noteq> 0\<close>), whatever the last
  processed id, a stale diff (\<open>u \<le> s\<close>) is rejected by the loop: it only logs the discard;
  nothing is written to the diff recorder, \<open>snapshotRequest\<close> is not called, and both ids
  are unchanged.\<close>

theorem stale_diff_is_dropped:
  assumes "lastSnapshotId st \<noteq> 0"
    and "sint (FinalUpdateID diff) \<le> sint (lastSnapshotId st)"
  shows "loop_body werr (DiffMsg diff) st =
           Continue (st\<lparr>logged := logged st @
             [Infof_discarded (FinalUpdateID diff) (lastSnapshotId st)]\<rparr>) \<and>
         written (state_of (loop_body werr (DiffMsg diff) st)) = written st \<and>
         requests (state_of (loop_body werr (DiffMsg diff) st)) = requests st \<and>
         lastSnapshotId (state_of (loop_body werr (DiffMsg diff) st)) = lastSnapshotId st \<and>
         lastProcessedId (state_of (loop_body werr (DiffMsg diff) st)) = lastProcessedId st"
  using assms by (simp add: ProcessOrderBookDiffMessage_def)

text \<open>The scenario of the test: the snapshot \<open>100\<close>, then the diff \<open>{U: 100, u: 100}\<close>.\<close>

theorem stale_diff_is_dropped_witness:
  "SubscribeOrderBookDiff (\<lambda>d. False)
      [SnapshotMsg \<lparr>LastUpdateID = 100, SnapBids = [], SnapAsks = []\<rparr>] =
     Continue \<lparr>lastSnapshotId = 100, lastProcessedId = 100, written = [], requests = 0,
       logged = [Infof_new_snapshot 100]\<rparr> \<and>
   loop_body (\<lambda>d. False) (DiffMsg (diff_of 100 100))
      \<lparr>lastSnapshotId = 100, lastProcessedId = 100, written = [], requests = 0,
       logged = [Infof_new_snapshot 100]\<rparr> =
     Continue \<lparr>lastSnapshotId = 100, lastProcessedId = 100, written = [], requests = 0,
       logged = [Infof_new_snapshot 100, Infof_discarded 100 100]\<rparr>"
proof -
  let ?st = "\<lparr>lastSnapshotId = 100, lastProcessedId = 100, written = [], requests = 0,
       logged = [Infof_new_snapshot 100]\<rparr>"
  have a: "lastSnapshotId ?st \<noteq> 0" by simp
  have b: "sint (FinalUpdateID (diff_of 100 100)) \<le> sint (lastSnapshotId ?st)"
    by (simp add: diff_of_def)
  from stale_diff_is_dropped [OF a b, of "\<lambda>d. False"] show ?thesis
    by (simp add: SubscribeOrderBookDiff_def diff_of_def)
qed

end
